theory Spec2Isabelle
  imports Main "HOL-Library.Word"
begin

unbundle bit_operations_syntax

section \<open>The item store service of \<open>main.py\<close>\<close>

text \<open>
  The program is a FastAPI application that keeps its items in one module-level
  dictionary \<open>items_db\<close>, keyed by UUID. Every handler is modelled as a function that
  takes the dictionary and returns the handler's outcome together with the dictionary
  after the call, so that what a failed call leaves behind is visible.
\<close>

subsection \<open>Identifiers\<close>

text \<open>
  A \<open>uuid.UUID\<close> is a 128-bit integer. \<open>str\<close> of it, which the f-strings of the
  handlers use, is its 32 lower-case hexadecimal digits grouped 8-4-4-4-12.
\<close>

type_synonym uuid = "128 word"

definition hex_digit :: "nat \<Rightarrow> char" where
  "hex_digit n = ''0123456789abcdef'' ! (n mod 16)"

definition nibble :: "uuid \<Rightarrow> nat \<Rightarrow> nat" where
  "nibble u i = unat (drop_bit (4 * (31 - i)) u AND 15)"

definition uuid_hex :: "uuid \<Rightarrow> string" where
  "uuid_hex u = map (\<lambda>i. hex_digit (nibble u i)) [0..<32]"

definition uuid_str :: "uuid \<Rightarrow> string" where
  "uuid_str u =
     (let h = uuid_hex u
      in take 8 h @ ''-'' @ take 4 (drop 8 h) @ ''-'' @ take 4 (drop 12 h) @ ''-'' @
         take 4 (drop 16 h) @ ''-'' @ drop 20 h)"

text \<open>
  \<open>uuid.uuid4()\<close> draws 122 random bits and sets the version nibble to 4 and the
  variant bits to binary 10. The draw is an argument of the model of \<open>create_item\<close>.
\<close>

definition is_uuid4 :: "uuid \<Rightarrow> bool" where
  "is_uuid4 u \<longleftrightarrow> drop_bit 76 u AND 15 = 4 \<and> drop_bit 62 u AND 3 = 2"

subsection \<open>The pydantic models\<close>

record ItemCreate =
  "text" :: string
  is_done :: bool

record ItemResponse =
  id' :: uuid
  "text" :: string
  is_done :: bool

datatype error =
    ValidationError
  | HTTPException (status_code: nat) (detail: string)

text \<open>
  FastAPI builds the \<open>ItemCreate\<close> argument of a handler from the request body before
  it calls the handler; \<open>Field(..., min_length=1)\<close> rejects an empty \<open>text\<close> there.
\<close>

definition ItemCreate_init :: "string \<Rightarrow> bool \<Rightarrow> error + ItemCreate" where
  "ItemCreate_init t d =
     (if length t < 1 then Inl ValidationError
      else Inr \<lparr>ItemCreate.text = t, ItemCreate.is_done = d\<rparr>)"

subsection \<open>The dictionary\<close>

text \<open>
  A Python \<open>dict\<close> keeps its keys in insertion order, and \<open>list_items\<close> observes that
  order, so the dictionary is an association list: assigning to a key that is present
  replaces the value in place, assigning to a new key appends, \<open>del\<close> removes the entry.
  A dictionary never holds a key twice.
\<close>

type_synonym ('k, 'v) dict = "('k \<times> 'v) list"

fun dict_get :: "('k, 'v) dict \<Rightarrow> 'k \<Rightarrow> 'v option" where
  "dict_get [] k = None"
| "dict_get ((a, b) # ps) k = (if a = k then Some b else dict_get ps k)"

fun dict_setitem :: "('k, 'v) dict \<Rightarrow> 'k \<Rightarrow> 'v \<Rightarrow> ('k, 'v) dict" where
  "dict_setitem [] k v = [(k, v)]"
| "dict_setitem ((a, b) # ps) k v =
     (if a = k then (k, v) # ps else (a, b) # dict_setitem ps k v)"

fun dict_delitem :: "('k, 'v) dict \<Rightarrow> 'k \<Rightarrow> ('k, 'v) dict" where
  "dict_delitem [] k = []"
| "dict_delitem ((a, b) # ps) k = (if a = k then ps else (a, b) # dict_delitem ps k)"

definition dict_contains :: "('k, 'v) dict \<Rightarrow> 'k \<Rightarrow> bool" where
  "dict_contains d k \<longleftrightarrow> k \<in> set (map fst d)"

definition dict_keys :: "('k, 'v) dict \<Rightarrow> 'k list" where
  "dict_keys d = map fst d"

definition dict_values :: "('k, 'v) dict \<Rightarrow> 'v list" where
  "dict_values d = map snd d"

definition dict_wf :: "('k, 'v) dict \<Rightarrow> bool" where
  "dict_wf d \<longleftrightarrow> distinct (map fst d)"

type_synonym store = "(uuid, ItemResponse) dict"

subsection \<open>Slicing\<close>

text \<open>
  \<open>xs[start:stop]\<close> on Python integers: a negative bound counts from the end, and both
  bounds are clamped to the list.
\<close>

definition slice_bound :: "int \<Rightarrow> int \<Rightarrow> int" where
  "slice_bound n i = (if i < 0 then max (i + n) 0 else min i n)"

definition py_slice :: "'a list \<Rightarrow> int \<Rightarrow> int \<Rightarrow> 'a list" where
  "py_slice xs start stop =
     (let n = int (length xs);
          lo = slice_bound n start;
          hi = slice_bound n stop
      in take (nat (hi - lo)) (drop (nat lo) xs))"

subsection \<open>The handlers\<close>

definition not_found :: "uuid \<Rightarrow> error" where
  "not_found item_id =
     HTTPException 404 (''Item with ID '' @ uuid_str item_id @ '' not found'')"

definition create_item :: "store \<Rightarrow> uuid \<Rightarrow> ItemCreate \<Rightarrow> (error + ItemResponse) \<times> store" where
  "create_item items_db uuid4 item_in =
     (let item_id = uuid4;
          new_item = \<lparr>id' = item_id, text = ItemCreate.text item_in,
                      is_done = ItemCreate.is_done item_in\<rparr>
      in (Inr new_item, dict_setitem items_db item_id new_item))"

definition list_items :: "store \<Rightarrow> int \<Rightarrow> int \<Rightarrow> (error + ItemResponse list) \<times> store" where
  "list_items items_db skip limit =
     (let all_items = dict_values items_db
      in (Inr (py_slice all_items skip (skip + limit)), items_db))"

definition get_item :: "store \<Rightarrow> uuid \<Rightarrow> (error + ItemResponse) \<times> store" where
  "get_item items_db item_id =
     (case dict_get items_db item_id of
        None \<Rightarrow> (Inl (not_found item_id), items_db)
      | Some item \<Rightarrow> (Inr item, items_db))"

text \<open>
  \<open>update_item\<close> assigns the two fields of the stored object and stores the object
  back under its key. The object is referenced from the dictionary only, under that one
  key, so the assignments are visible nowhere else.
\<close>

definition update_item :: "store \<Rightarrow> uuid \<Rightarrow> ItemCreate \<Rightarrow> (error + ItemResponse) \<times> store" where
  "update_item items_db item_id item_update =
     (case dict_get items_db item_id of
        None \<Rightarrow> (Inl (not_found item_id), items_db)
      | Some item \<Rightarrow>
          (let item1 = item\<lparr>text := ItemCreate.text item_update\<rparr>;
               item2 = item1\<lparr>is_done := ItemCreate.is_done item_update\<rparr>
           in (Inr item2, dict_setitem items_db item_id item2)))"

definition delete_item :: "store \<Rightarrow> uuid \<Rightarrow> (error + unit) \<times> store" where
  "delete_item items_db item_id =
     (if \<not> dict_contains items_db item_id then (Inl (not_found item_id), items_db)
      else (Inr (), dict_delitem items_db item_id))"

subsection \<open>The routes\<close>

text \<open>
  A route validates the request body into an \<open>ItemCreate\<close> and then calls its handler;
  a body that fails validation never reaches the handler.
\<close>

definition POST_items :: "store \<Rightarrow> uuid \<Rightarrow> string \<Rightarrow> bool \<Rightarrow> (error + ItemResponse) \<times> store" where
  "POST_items items_db uuid4 t d =
     (case ItemCreate_init t d of
        Inl e \<Rightarrow> (Inl e, items_db)
      | Inr item_in \<Rightarrow> create_item items_db uuid4 item_in)"

definition PUT_items :: "store \<Rightarrow> uuid \<Rightarrow> string \<Rightarrow> bool \<Rightarrow> (error + ItemResponse) \<times> store" where
  "PUT_items items_db item_id t d =
     (case ItemCreate_init t d of
        Inl e \<Rightarrow> (Inl e, items_db)
      | Inr item_update \<Rightarrow> update_item items_db item_id item_update)"

datatype request =
    Create uuid string bool
  | List int int
  | Get uuid
  | Update uuid string bool
  | Delete uuid

datatype payload =
    Item ItemResponse
  | Items "ItemResponse list"
  | NoContent

fun handle :: "store \<Rightarrow> request \<Rightarrow> (error + payload) \<times> store" where
  "handle db (Create uuid4 t d) = apfst (map_sum (\<lambda>e. e) Item) (POST_items db uuid4 t d)"
| "handle db (List skip limit) = apfst (map_sum (\<lambda>e. e) Items) (list_items db skip limit)"
| "handle db (Get item_id) = apfst (map_sum (\<lambda>e. e) Item) (get_item db item_id)"
| "handle db (Update item_id t d) = apfst (map_sum (\<lambda>e. e) Item) (PUT_items db item_id t d)"
| "handle db (Delete item_id) =
     apfst (map_sum (\<lambda>e. e) (\<lambda>_. NoContent)) (delete_item db item_id)"

text \<open>The store after a sequence of requests, and the responses along the way.\<close>

fun run :: "store \<Rightarrow> request list \<Rightarrow> (error + payload) list \<times> store" where
  "run db [] = ([], db)"
| "run db (r # rs) =
     (let (resp, db1) = handle db r;
          (resps, db2) = run db1 rs
      in (resp # resps, db2))"

text \<open>The invariant of the store: texts are non-empty and every item sits under its own id.\<close>

definition store_inv :: "store \<Rightarrow> bool" where
  "store_inv db \<longleftrightarrow>
     dict_wf db \<and> list_all (\<lambda>(k, item). text item \<noteq> [] \<and> id' item = k) db"

section \<open>Properties of the dictionary and of slicing\<close>

lemma dict_get_None_iff: "dict_get d k = None \<longleftrightarrow> \<not> dict_contains d k"
  by (induction d k rule: dict_get.induct) (auto simp: dict_contains_def)

lemma dict_get_Some_contains: "dict_get d k = Some v \<Longrightarrow> dict_contains d k"
  using dict_get_None_iff [of d k] by auto

lemma dict_get_Some_mem: "dict_get d k = Some v \<Longrightarrow> (k, v) \<in> set d"
  by (induction d k rule: dict_get.induct) (auto split: if_splits)

lemma dict_setitem_fresh: "\<not> dict_contains d k \<Longrightarrow> dict_setitem d k v = d @ [(k, v)]"
  by (induction d k v rule: dict_setitem.induct) (auto simp: dict_contains_def)

lemma dict_get_setitem:
  "dict_get (dict_setitem d k v) k' = (if k' = k then Some v else dict_get d k')"
  by (induction d k v rule: dict_setitem.induct) auto

lemma dict_keys_setitem:
  "map fst (dict_setitem d k v) = (if dict_contains d k then map fst d else map fst d @ [k])"
  by (induction d k v rule: dict_setitem.induct) (auto simp: dict_contains_def)

lemma length_setitem_present: "dict_contains d k \<Longrightarrow> length (dict_setitem d k v) = length d"
  by (induction d k v rule: dict_setitem.induct) (auto simp: dict_contains_def)

lemma dict_wf_setitem: "dict_wf d \<Longrightarrow> dict_wf (dict_setitem d k v)"
  by (simp add: dict_wf_def dict_keys_setitem dict_contains_def)

lemma set_setitem: "set (dict_setitem d k v) \<subseteq> insert (k, v) (set d)"
  by (induction d k v rule: dict_setitem.induct) auto

lemma set_delitem: "set (dict_delitem d k) \<subseteq> set d"
  by (induction d k rule: dict_delitem.induct) auto

lemma dict_keys_delitem: "dict_wf d \<Longrightarrow> map fst (dict_delitem d k) = removeAll k (map fst d)"
  by (induction d k rule: dict_delitem.induct) (auto simp: dict_wf_def rev_image_eqI)

lemma dict_wf_delitem: "dict_wf d \<Longrightarrow> dict_wf (dict_delitem d k)"
  using dict_keys_delitem [of d k] by (simp add: dict_wf_def distinct_removeAll)

lemma dict_get_delitem:
  "dict_wf d \<Longrightarrow> dict_get (dict_delitem d k) k' = (if k' = k then None else dict_get d k')"
proof (induction d)
  case Nil
  then show ?case by simp
next
  case (Cons p ps)
  obtain a b where p: "p = (a, b)" by (cases p)
  from Cons.prems have wf: "dict_wf ps" and fresh: "\<not> dict_contains ps a"
    by (simp_all add: p dict_wf_def dict_contains_def)
  show ?case
    using Cons.IH [OF wf] fresh dict_get_None_iff [of ps a] by (auto simp: p)
qed

lemma length_delitem: "dict_contains d k \<Longrightarrow> Suc (length (dict_delitem d k)) = length d"
  by (induction d k rule: dict_delitem.induct) (auto simp: dict_contains_def)

lemma dict_delitem_absent: "\<not> dict_contains d k \<Longrightarrow> dict_delitem d k = d"
  by (induction d k rule: dict_delitem.induct) (auto simp: dict_contains_def)

lemma py_slice_nonneg:
  assumes "0 \<le> a" and "0 \<le> b"
  shows "py_slice xs a (a + b) = take (nat b) (drop (nat a) xs)"
proof (cases "a < int (length xs)")
  case True
  have lo: "slice_bound (int (length xs)) a = a"
    using assms True by (simp add: slice_bound_def)
  have hi: "slice_bound (int (length xs)) (a + b) = min (a + b) (int (length xs))"
    using assms by (simp add: slice_bound_def)
  have "nat (min (a + b) (int (length xs)) - a) = min (nat b) (length (drop (nat a) xs))"
    using assms True by (simp add: min_def) linarith
  then show ?thesis
    by (simp add: py_slice_def Let_def lo hi min_def)
next
  case False
  then have lo: "slice_bound (int (length xs)) a = int (length xs)"
    using assms by (simp add: slice_bound_def)
  have hi: "slice_bound (int (length xs)) (a + b) = int (length xs)"
    using assms False by (simp add: slice_bound_def)
  from False assms have "length xs \<le> nat a" by linarith
  then show ?thesis
    by (simp add: py_slice_def Let_def lo hi)
qed

subsection \<open>Validation and the routes\<close>

lemma ItemCreate_init_ok:
  "t \<noteq> [] \<Longrightarrow> ItemCreate_init t d = Inr \<lparr>ItemCreate.text = t, ItemCreate.is_done = d\<rparr>"
  by (cases t) (simp_all add: ItemCreate_init_def)

lemma ItemCreate_init_empty: "ItemCreate_init [] d = Inl ValidationError"
  by (simp add: ItemCreate_init_def)

lemma POST_items_ok:
  "t \<noteq> [] \<Longrightarrow>
   POST_items db u t d =
     (Inr \<lparr>id' = u, text = t, is_done = d\<rparr>,
      dict_setitem db u \<lparr>id' = u, text = t, is_done = d\<rparr>)"
  by (simp add: POST_items_def ItemCreate_init_ok create_item_def Let_def)

lemma PUT_items_ok:
  "t \<noteq> [] \<Longrightarrow> dict_get db k = Some item \<Longrightarrow>
   PUT_items db k t d =
     (Inr (item\<lparr>text := t, is_done := d\<rparr>),
      dict_setitem db k (item\<lparr>text := t, is_done := d\<rparr>))"
  by (simp add: PUT_items_def ItemCreate_init_ok update_item_def Let_def)

lemma update_item_missing:
  "\<not> dict_contains db k \<Longrightarrow> update_item db k item_update = (Inl (not_found k), db)"
  using dict_get_None_iff [of db k] by (simp add: update_item_def)

lemma get_item_missing:
  "\<not> dict_contains db k \<Longrightarrow> get_item db k = (Inl (not_found k), db)"
  using dict_get_None_iff [of db k] by (simp add: get_item_def)

subsection \<open>The text form of an identifier determines it\<close>

lemma hex_digit_inj:
  assumes "m < 16" and "n < 16" and "hex_digit m = hex_digit n"
  shows "m = n"
proof -
  have d: "distinct ''0123456789abcdef''" by simp
  have l: "length ''0123456789abcdef'' = 16" by simp
  from assms show ?thesis
    using nth_eq_iff_index_eq [OF d, of m n] by (simp add: hex_digit_def)
qed

lemma nibble_less: "nibble u i < 16"
proof -
  have "drop_bit (4 * (31 - i)) u AND 15 \<le> (15 :: uuid)"
    by (rule word_and_le1)
  then have "unat (drop_bit (4 * (31 - i)) u AND 15) \<le> unat (15 :: uuid)"
    by (simp add: word_le_nat_alt)
  then show ?thesis by (simp add: nibble_def)
qed

lemma length_uuid_hex: "length (uuid_hex u) = 32"
  by (simp add: uuid_hex_def)

lemma uuid_hex_inj:
  assumes "uuid_hex u = uuid_hex v"
  shows "u = v"
proof (rule bit_word_eqI)
  fix n
  assume "n < LENGTH(128)"
  then have n: "n < 128" by simp
  define i where "i = 31 - n div 4"
  have i: "i < 32" and sh: "4 * (31 - i) = 4 * (n div 4)"
    using n by (simp_all add: i_def)
  have "uuid_hex u ! i = uuid_hex v ! i" using assms by simp
  then have "hex_digit (nibble u i) = hex_digit (nibble v i)"
    using i by (simp add: uuid_hex_def)
  then have "nibble u i = nibble v i"
    using hex_digit_inj nibble_less by blast
  then have eq: "drop_bit (4 * (n div 4)) u AND 15 = drop_bit (4 * (n div 4)) v AND (15 :: uuid)"
    by (simp add: nibble_def sh word_unat_eq_iff)
  have m: "n mod 4 < 4" by simp
  have b15: "bit (15 :: uuid) (n mod 4)"
  proof -
    have e: "(15 :: uuid) = mask 4" by (simp add: mask_eq_exp_minus_1)
    have "bit (mask 4 :: uuid) (n mod 4)" by (simp only: bit_mask_iff) simp
    then show ?thesis by (simp only: e)
  qed
  have "bit u n = bit (drop_bit (4 * (n div 4)) u AND 15) (n mod 4)"
    using b15 by (simp add: bit_and_iff bit_drop_bit_eq)
  also have "\<dots> = bit (drop_bit (4 * (n div 4)) v AND 15) (n mod 4)"
    by (simp only: eq)
  also have "\<dots> = bit v n"
    using b15 by (simp add: bit_and_iff bit_drop_bit_eq)
  finally show "bit u n = bit v n" .
qed

lemma hex_regroup:
  "take 8 h @ take 4 (drop 8 h) @ take 4 (drop 12 h) @ take 4 (drop 16 h) @ drop 20 h = h"
proof -
  have a: "take 4 (drop 16 h) @ drop 20 h = drop 16 h"
    using append_take_drop_id [of 4 "drop 16 h"] unfolding drop_drop by simp
  have b: "take 4 (drop 12 h) @ drop 16 h = drop 12 h"
    using append_take_drop_id [of 4 "drop 12 h"] unfolding drop_drop by simp
  have c: "take 4 (drop 8 h) @ drop 12 h = drop 8 h"
    using append_take_drop_id [of 4 "drop 8 h"] unfolding drop_drop by simp
  show ?thesis by (simp only: a b c append_take_drop_id)
qed

lemma uuid_hex_of_str:
  "take 8 (uuid_str u) @ take 4 (drop 9 (uuid_str u)) @ take 4 (drop 14 (uuid_str u)) @
     take 4 (drop 19 (uuid_str u)) @ drop 24 (uuid_str u) = uuid_hex u"
proof -
  define h where "h = uuid_hex u"
  have len: "length h = 32" by (simp add: h_def length_uuid_hex)
  have "take 8 (uuid_str u) @ take 4 (drop 9 (uuid_str u)) @ take 4 (drop 14 (uuid_str u)) @
          take 4 (drop 19 (uuid_str u)) @ drop 24 (uuid_str u) =
        take 8 h @ take 4 (drop 8 h) @ take 4 (drop 12 h) @ take 4 (drop 16 h) @ drop 20 h"
    by (simp add: uuid_str_def Let_def h_def [symmetric] len)
  then show ?thesis by (simp only: hex_regroup h_def)
qed

lemma uuid_str_inj: "uuid_str u = uuid_str v \<Longrightarrow> u = v"
  using uuid_hex_of_str [of u] uuid_hex_of_str [of v] uuid_hex_inj by simp

lemma not_found_inj: "not_found k = not_found k' \<Longrightarrow> k = k'"
  by (simp add: not_found_def uuid_str_inj)

subsection \<open>The store invariant is preserved\<close>

lemma dict_delitem_filter: "dict_wf d \<Longrightarrow> dict_delitem d k = filter (\<lambda>p. fst p \<noteq> k) d"
proof (induction d k rule: dict_delitem.induct)
  case (1 k)
  then show ?case by simp
next
  case (2 a b ps k)
  from "2.prems" have wf: "dict_wf ps" and fresh: "a \<notin> fst ` set ps"
    by (simp_all add: dict_wf_def)
  show ?case
  proof (cases "a = k")
    case True
    with fresh have "filter (\<lambda>p. fst p \<noteq> k) ps = ps"
      by (auto simp: filter_id_conv)
    with True show ?thesis by simp
  next
    case False
    with "2.IH" wf show ?thesis by simp
  qed
qed

lemma ItemResponse_replace:
  "item\<lparr>text := t, is_done := d\<rparr> = \<lparr>id' = id' item, text = t, is_done = d\<rparr>"
  by (cases item) simp

lemma store_inv_setitem:
  assumes "store_inv db" and "text item \<noteq> []" and "id' item = k"
  shows "store_inv (dict_setitem db k item)"
proof -
  have "\<forall>p \<in> set (dict_setitem db k item). case p of (a, b) \<Rightarrow> text b \<noteq> [] \<and> id' b = a"
    using assms set_setitem [of db k item] by (auto simp: store_inv_def list_all_iff)
  with assms(1) show ?thesis
    by (simp add: store_inv_def dict_wf_setitem list_all_iff)
qed

lemma store_inv_delitem:
  assumes "store_inv db"
  shows "store_inv (dict_delitem db k)"
proof -
  have "\<forall>p \<in> set (dict_delitem db k). case p of (a, b) \<Rightarrow> text b \<noteq> [] \<and> id' b = a"
    using assms set_delitem [of db k] by (auto simp: store_inv_def list_all_iff)
  with assms show ?thesis
    by (simp add: store_inv_def dict_wf_delitem list_all_iff)
qed

lemma store_inv_lookup:
  "store_inv db \<Longrightarrow> dict_get db k = Some item \<Longrightarrow> text item \<noteq> [] \<and> id' item = k"
  using dict_get_Some_mem [of db k item] by (auto simp: store_inv_def list_all_iff)

lemma store_inv_POST:
  assumes "store_inv db"
  shows "store_inv (snd (POST_items db u t d))"
proof (cases "t = []")
  case True
  with assms show ?thesis
    by (simp add: POST_items_def ItemCreate_init_empty)
next
  case False
  with assms show ?thesis
    by (simp add: POST_items_ok store_inv_setitem)
qed

lemma store_inv_PUT:
  assumes "store_inv db"
  shows "store_inv (snd (PUT_items db k t d))"
proof (cases "t = []")
  case True
  with assms show ?thesis by (simp add: PUT_items_def ItemCreate_init_empty)
next
  case False
  show ?thesis
  proof (cases "dict_get db k")
    case None
    with False assms show ?thesis
      by (simp add: PUT_items_def ItemCreate_init_ok update_item_def)
  next
    case (Some item)
    from store_inv_lookup [OF assms Some] have "id' item = k" by simp
    with False assms show ?thesis
      by (simp add: PUT_items_ok [OF False Some] store_inv_setitem)
  qed
qed

lemma store_inv_delete: "store_inv db \<Longrightarrow> store_inv (snd (delete_item db k))"
  by (simp add: delete_item_def store_inv_delitem)

lemma store_inv_handle: "store_inv db \<Longrightarrow> store_inv (snd (handle db r))"
  by (cases r)
     (simp_all add: store_inv_POST store_inv_PUT store_inv_delete list_items_def get_item_def
        Let_def split: option.splits)

lemma store_inv_run: "store_inv db \<Longrightarrow> store_inv (snd (run db rs))"
proof (induction rs arbitrary: db)
  case Nil
  then show ?case by simp
next
  case (Cons r rs)
  from Cons.prems have "store_inv (snd (handle db r))" by (rule store_inv_handle)
  then have "store_inv (snd (run (snd (handle db r)) rs))" by (rule Cons.IH)
  then show ?case by (simp add: split_beta Let_def)
qed

lemma store_inv_ids: "store_inv db \<Longrightarrow> map id' (dict_values db) = dict_keys db"
  by (auto simp: store_inv_def list_all_iff dict_values_def dict_keys_def)

subsection \<open>A sequence of creations\<close>

lemma run_creates:
  assumes "distinct (map fst cs)"
    and "\<forall>c \<in> set cs. \<not> dict_contains db (fst c) \<and> fst (snd c) \<noteq> []"
  shows "run db (map (\<lambda>(u, t, d). Create u t d) cs) =
           (map (\<lambda>(u, t, d). Inr (Item \<lparr>id' = u, text = t, is_done = d\<rparr>)) cs,
            db @ map (\<lambda>(u, t, d). (u, \<lparr>id' = u, text = t, is_done = d\<rparr>)) cs)"
  using assms
proof (induction cs arbitrary: db)
  case Nil
  then show ?case by simp
next
  case (Cons c cs)
  obtain u t d where c: "c = (u, t, d)" by (cases c)
  let ?item = "\<lparr>id' = u, text = t, is_done = d\<rparr>"
  let ?db1 = "db @ [(u, ?item)]"
  from Cons.prems have t: "t \<noteq> []" and fresh: "\<not> dict_contains db u"
    by (simp_all add: c)
  have step: "handle db (Create u t d) = (Inr (Item ?item), ?db1)"
    by (simp add: POST_items_ok [OF t] dict_setitem_fresh [OF fresh])
  have d: "distinct (map fst cs)" using Cons.prems(1) by simp
  have "\<forall>c' \<in> set cs. \<not> dict_contains ?db1 (fst c') \<and> fst (snd c') \<noteq> []"
    using Cons.prems by (auto simp: c dict_contains_def)
  from Cons.IH [OF d this] step show ?case
    by (simp add: c)
qed

subsection \<open>Slices that start at the last element\<close>

lemma drop_to_last: "xs \<noteq> [] \<Longrightarrow> drop (length xs - Suc 0) xs = [last xs]"
  by (metis One_nat_def append_butlast_last_id append_eq_conv_conj length_butlast)

lemma py_slice_last:
  assumes "xs \<noteq> []" and "length xs \<le> 9"
  shows "py_slice xs (- 1) 9 = [last xs]"
proof -
  have lo: "slice_bound (int (length xs)) (- 1) = int (length xs) - 1"
    using assms(1) by (cases xs) (simp_all add: slice_bound_def)
  have hi: "slice_bound (int (length xs)) 9 = int (length xs)"
    using assms(2) by (simp add: slice_bound_def)
  have n: "nat (int (length xs) - 1) = length xs - Suc 0" by simp
  show ?thesis
    unfolding py_slice_def Let_def lo hi n by (simp add: drop_to_last [OF assms(1)])
qed

lemma py_slice_last_empty:
  assumes "10 \<le> length xs"
  shows "py_slice xs (- 1) 9 = []"
proof -
  have lo: "slice_bound (int (length xs)) (- 1) = int (length xs) - 1"
    using assms by (simp add: slice_bound_def)
  have hi: "slice_bound (int (length xs)) 9 = 9"
    using assms by (simp add: slice_bound_def)
  show ?thesis
    unfolding py_slice_def Let_def lo hi using assms by simp
qed

section \<open>The claims\<close>

subsection \<open>C1: creation\<close>

text \<open>
  C1 as the specification states it: for every non-empty text, \<open>create_item\<close> returns an
  item with an id that is not in the store before the call, and the store gains exactly
  one entry. The handler takes whatever \<open>uuid.uuid4()\<close> draws and never looks the draw up
  in \<open>items_db\<close>. When the draw is a key of the store, the returned id is not fresh and
  the assignment replaces the entry under that key: the store holds one entry before
  and one entry after.
\<close>

theorem create_item_collision:
  "is_uuid4 0x40008000000000000001
   \<and> dict_contains [(0x40008000000000000001 :: uuid,
         \<lparr>id' = 0x40008000000000000001, text = ''a'', is_done = False\<rparr>)]
        0x40008000000000000001
   \<and> POST_items [(0x40008000000000000001 :: uuid,
         \<lparr>id' = 0x40008000000000000001, text = ''a'', is_done = False\<rparr>)]
        0x40008000000000000001 ''b'' True =
       (Inr \<lparr>id' = 0x40008000000000000001, text = ''b'', is_done = True\<rparr>,
        [(0x40008000000000000001 :: uuid,
          \<lparr>id' = 0x40008000000000000001, text = ''b'', is_done = True\<rparr>)])"
  by (simp add: is_uuid4_def dict_contains_def POST_items_def ItemCreate_init_def
      create_item_def Let_def)

text \<open>
  C1, amended: for every non-empty text and boolean flag, when the identifier drawn by
  \<open>uuid.uuid4()\<close> is not a key of the store, \<open>create_item\<close> returns the item made of
  that identifier, the text and the flag, and the store after the call is the store
  before it followed by exactly that one entry, keyed by the returned id.
\<close>

theorem create_item_fresh:
  assumes "t \<noteq> []" and "\<not> dict_contains db u"
  shows "POST_items db u t d =
           (Inr \<lparr>id' = u, text = t, is_done = d\<rparr>,
            db @ [(u, \<lparr>id' = u, text = t, is_done = d\<rparr>)])"
  by (simp add: POST_items_ok [OF assms(1)] dict_setitem_fresh [OF assms(2)])

theorem create_item_fresh_witness:
  "''buy milk'' \<noteq> [] \<and> \<not> dict_contains [] (0x40008000000000000001 :: uuid)
   \<and> POST_items [] 0x40008000000000000001 ''buy milk'' False =
       (Inr \<lparr>id' = 0x40008000000000000001, text = ''buy milk'', is_done = False\<rparr>,
        [(0x40008000000000000001 :: uuid,
          \<lparr>id' = 0x40008000000000000001, text = ''buy milk'', is_done = False\<rparr>)])"
  using create_item_fresh [of "''buy milk''" "[]" "0x40008000000000000001" False]
  by (simp add: dict_contains_def)

subsection \<open>C2: the store invariant\<close>

text \<open>
  C2: in every state reached from the empty store by any sequence of requests, every
  stored item has a non-empty text and an id field equal to the key it is stored under,
  so that the ids of the stored items are pairwise distinct; and each of
  \<open>create_item\<close>, \<open>list_items\<close>, \<open>get_item\<close>, \<open>update_item\<close> and \<open>delete_item\<close>,
  called through its route, takes a store that satisfies the invariant to one that does.
\<close>

theorem store_invariant:
  "store_inv (snd (run [] rs))
   \<and> distinct (map id' (dict_values (snd (run [] rs))))
   \<and> (store_inv db \<longrightarrow>
        store_inv (snd (POST_items db u t d))
        \<and> store_inv (snd (list_items db skip limit))
        \<and> store_inv (snd (get_item db k))
        \<and> store_inv (snd (PUT_items db k t d))
        \<and> store_inv (snd (delete_item db k)))"
proof -
  have e: "store_inv []" by (simp add: store_inv_def dict_wf_def)
  then have r: "store_inv (snd (run [] rs))" by (rule store_inv_run)
  then have "distinct (map id' (dict_values (snd (run [] rs))))"
    by (simp add: store_inv_ids) (simp add: store_inv_def dict_wf_def dict_keys_def)
  moreover have "store_inv (snd (list_items db skip limit))" if "store_inv db"
    using that by (simp add: list_items_def Let_def)
  moreover have "store_inv (snd (get_item db k))" if "store_inv db"
    using that by (simp add: get_item_def split: option.splits)
  ultimately show ?thesis
    using r store_inv_POST store_inv_PUT store_inv_delete by blast
qed

theorem store_invariant_witness:
  "store_inv [(0x40008000000000000001 :: uuid,
       \<lparr>id' = 0x40008000000000000001, text = ''a'', is_done = False\<rparr>)]
   \<and> store_inv (snd (PUT_items [(0x40008000000000000001 :: uuid,
       \<lparr>id' = 0x40008000000000000001, text = ''a'', is_done = False\<rparr>)]
        0x40008000000000000001 ''b'' True))
   \<and> store_inv (snd (run [] [Create 0x40008000000000000001 ''a'' False,
        Update 0x40008000000000000001 ''b'' True, Delete 0x40008000000000000001]))"
  using store_invariant [of "[Create 0x40008000000000000001 ''a'' False,
        Update 0x40008000000000000001 ''b'' True, Delete 0x40008000000000000001]"
      "[(0x40008000000000000001 :: uuid,
         \<lparr>id' = 0x40008000000000000001, text = ''a'', is_done = False\<rparr>)]"
      "0x40008000000000000002" "''b''" True 0 10 "0x40008000000000000001"]
  by (simp add: store_inv_def dict_wf_def)

subsection \<open>C3: listing\<close>

text \<open>
  C3: for non-negative \<open>skip\<close> and \<open>limit\<close>, \<open>list_items\<close> returns the stored items in
  the order of the dictionary with the first \<open>skip\<close> dropped and at most \<open>limit\<close> kept;
  the result is empty when \<open>skip\<close> is at least the number of items and when \<open>limit\<close>
  is 0; the store is unchanged.
\<close>

theorem list_items_nonneg:
  assumes "0 \<le> skip" and "0 \<le> limit"
  shows "list_items db skip limit =
           (Inr (take (nat limit) (drop (nat skip) (dict_values db))), db)
         \<and> (int (length db) \<le> skip \<longrightarrow> fst (list_items db skip limit) = Inr [])
         \<and> (limit = 0 \<longrightarrow> fst (list_items db skip limit) = Inr [])"
proof -
  have eq: "list_items db skip limit =
              (Inr (take (nat limit) (drop (nat skip) (dict_values db))), db)"
    using py_slice_nonneg [OF assms] by (simp add: list_items_def Let_def)
  have far: "fst (list_items db skip limit) = Inr []" if "int (length db) \<le> skip"
  proof -
    from that assms have "length (dict_values db) \<le> nat skip"
      by (simp add: dict_values_def)
    then show ?thesis by (simp add: eq)
  qed
  have none: "fst (list_items db skip limit) = Inr []" if "limit = 0"
    using eq that by simp
  from eq far none show ?thesis by blast
qed

theorem list_items_nonneg_witness:
  "(0 :: int) \<le> 1 \<and> (0 :: int) \<le> 1
   \<and> list_items [(1, \<lparr>id' = 1, text = ''a'', is_done = False\<rparr>),
                   (2, \<lparr>id' = 2, text = ''b'', is_done = True\<rparr>),
                   (3, \<lparr>id' = 3, text = ''c'', is_done = False\<rparr>)] 1 1 =
       (Inr [\<lparr>id' = 2, text = ''b'', is_done = True\<rparr>],
        [(1, \<lparr>id' = 1, text = ''a'', is_done = False\<rparr>),
         (2, \<lparr>id' = 2, text = ''b'', is_done = True\<rparr>),
         (3, \<lparr>id' = 3, text = ''c'', is_done = False\<rparr>)])
   \<and> fst (list_items [(1, \<lparr>id' = 1, text = ''a'', is_done = False\<rparr>)] 1 5) = Inr []
   \<and> fst (list_items [(1, \<lparr>id' = 1, text = ''a'', is_done = False\<rparr>)] 0 0) = Inr []"
  using list_items_nonneg [of 1 1 "[(1, \<lparr>id' = 1, text = ''a'', is_done = False\<rparr>),
                   (2, \<lparr>id' = 2, text = ''b'', is_done = True\<rparr>),
                   (3, \<lparr>id' = 3, text = ''c'', is_done = False\<rparr>)]"]
    list_items_nonneg [of 1 5 "[(1, \<lparr>id' = 1, text = ''a'', is_done = False\<rparr>)]"]
    list_items_nonneg [of 0 0 "[(1, \<lparr>id' = 1, text = ''a'', is_done = False\<rparr>)]"]
  by (simp add: dict_values_def)

subsection \<open>C4: lookup\<close>

text \<open>
  C4: \<open>get_item\<close> returns the item stored under the identifier when there is one (under
  the store invariant that item carries the identifier as its id), and fails exactly when
  the identifier is not a key of the store, with the 404 whose detail is
  \<open>Item with ID <identifier> not found\<close>; the detail determines the identifier. The store
  is unchanged in both cases.
\<close>

theorem get_item_spec:
  "(dict_get db k = Some item \<longrightarrow> get_item db k = (Inr item, db))
   \<and> (fst (get_item db k) = Inl (HTTPException 404 (''Item with ID '' @ uuid_str k @ '' not found''))
        \<longleftrightarrow> \<not> dict_contains db k)
   \<and> (isl (fst (get_item db k)) \<longleftrightarrow> \<not> dict_contains db k)
   \<and> snd (get_item db k) = db
   \<and> (store_inv db \<and> dict_get db k = Some item \<longrightarrow> id' item = k)
   \<and> (not_found k = not_found k' \<longrightarrow> k = k')"
proof -
  have "isl (fst (get_item db k)) \<longleftrightarrow> \<not> dict_contains db k"
    using dict_get_None_iff [of db k] by (auto simp: get_item_def split: option.splits)
  moreover have "fst (get_item db k) =
      Inl (HTTPException 404 (''Item with ID '' @ uuid_str k @ '' not found''))
        \<longleftrightarrow> \<not> dict_contains db k"
    using dict_get_None_iff [of db k]
    by (auto simp: get_item_def not_found_def split: option.splits)
  moreover have "snd (get_item db k) = db"
    by (simp add: get_item_def split: option.splits)
  moreover have "get_item db k = (Inr item, db)" if "dict_get db k = Some item"
    using that by (simp add: get_item_def)
  moreover have "id' item = k" if "store_inv db" and "dict_get db k = Some item"
    using store_inv_lookup [OF that] by simp
  ultimately show ?thesis
    using not_found_inj by blast
qed

theorem get_item_spec_witness:
  "dict_get [(0x40008000000000000001 :: uuid,
       \<lparr>id' = 0x40008000000000000001, text = ''a'', is_done = False\<rparr>)]
     0x40008000000000000001
     = Some \<lparr>id' = 0x40008000000000000001, text = ''a'', is_done = False\<rparr>
   \<and> get_item [(0x40008000000000000001 :: uuid,
       \<lparr>id' = 0x40008000000000000001, text = ''a'', is_done = False\<rparr>)]
     0x40008000000000000001
     = (Inr \<lparr>id' = 0x40008000000000000001, text = ''a'', is_done = False\<rparr>,
        [(0x40008000000000000001 :: uuid,
          \<lparr>id' = 0x40008000000000000001, text = ''a'', is_done = False\<rparr>)])
   \<and> store_inv [(0x40008000000000000001 :: uuid,
       \<lparr>id' = 0x40008000000000000001, text = ''a'', is_done = False\<rparr>)]
   \<and> not_found 0x40008000000000000001 = not_found 0x40008000000000000001"
  using get_item_spec [of "[(0x40008000000000000001 :: uuid,
       \<lparr>id' = 0x40008000000000000001, text = ''a'', is_done = False\<rparr>)]"
     "0x40008000000000000001"
     "\<lparr>id' = 0x40008000000000000001, text = ''a'', is_done = False\<rparr>"
     "0x40008000000000000001"]
  by (simp add: store_inv_def dict_wf_def)

subsection \<open>C5: update\<close>

text \<open>
  C5: for an identifier that is a key of the store and a non-empty text, \<open>update_item\<close>
  returns the stored item with its text and flag replaced by the given ones and its id
  as it was, stores it under the same key, and \<open>get_item\<close> on the store after the call
  returns that item; for an identifier that is not a key of the store it fails with the
  404 of that identifier.
\<close>

theorem update_item_spec:
  "(t \<noteq> [] \<and> dict_get db k = Some item \<longrightarrow>
      fst (PUT_items db k t d) = Inr \<lparr>id' = id' item, text = t, is_done = d\<rparr>
      \<and> dict_get (snd (PUT_items db k t d)) k = Some \<lparr>id' = id' item, text = t, is_done = d\<rparr>
      \<and> get_item (snd (PUT_items db k t d)) k =
            (Inr \<lparr>id' = id' item, text = t, is_done = d\<rparr>, snd (PUT_items db k t d)))
   \<and> (\<not> dict_contains db k \<longrightarrow> update_item db k item_update = (Inl (not_found k), db))
   \<and> (t \<noteq> [] \<and> \<not> dict_contains db k \<longrightarrow> PUT_items db k t d = (Inl (not_found k), db))"
proof -
  have ok: "fst (PUT_items db k t d) = Inr \<lparr>id' = id' item, text = t, is_done = d\<rparr>
      \<and> dict_get (snd (PUT_items db k t d)) k = Some \<lparr>id' = id' item, text = t, is_done = d\<rparr>
      \<and> get_item (snd (PUT_items db k t d)) k =
            (Inr \<lparr>id' = id' item, text = t, is_done = d\<rparr>, snd (PUT_items db k t d))"
    if "t \<noteq> []" and "dict_get db k = Some item"
    by (simp add: PUT_items_ok [OF that] ItemResponse_replace dict_get_setitem get_item_def)
  have missing: "PUT_items db k t d = (Inl (not_found k), db)"
    if "t \<noteq> []" and "\<not> dict_contains db k"
    using that by (simp add: PUT_items_def ItemCreate_init_ok update_item_missing)
  from ok missing update_item_missing show ?thesis by blast
qed

theorem update_item_spec_witness:
  "''b'' \<noteq> []
   \<and> dict_get [(0x40008000000000000001 :: uuid,
        \<lparr>id' = 0x40008000000000000001, text = ''a'', is_done = False\<rparr>)]
        0x40008000000000000001
      = Some \<lparr>id' = 0x40008000000000000001, text = ''a'', is_done = False\<rparr>
   \<and> fst (PUT_items [(0x40008000000000000001 :: uuid,
        \<lparr>id' = 0x40008000000000000001, text = ''a'', is_done = False\<rparr>)]
        0x40008000000000000001 ''b'' True)
      = Inr \<lparr>id' = 0x40008000000000000001, text = ''b'', is_done = True\<rparr>
   \<and> \<not> dict_contains [] (0x40008000000000000002 :: uuid)
   \<and> PUT_items [] 0x40008000000000000002 ''b'' True
      = (Inl (not_found 0x40008000000000000002), [])"
  using update_item_spec [of "''b''"
      "[(0x40008000000000000001 :: uuid,
         \<lparr>id' = 0x40008000000000000001, text = ''a'', is_done = False\<rparr>)]"
      "0x40008000000000000001"
      "\<lparr>id' = 0x40008000000000000001, text = ''a'', is_done = False\<rparr>" True]
    update_item_spec [of "''b''" "[]" "0x40008000000000000002" _ True]
  by (simp add: dict_contains_def)

subsection \<open>C6: deletion\<close>

text \<open>
  C6: for an identifier that is a key of the store, \<open>delete_item\<close> removes the entry
  under that key and no other: the other entries stay, in their order, the store has
  one entry less, and \<open>get_item\<close> on the store after the call fails with the 404 of the
  identifier. For an identifier that is not a key, \<open>delete_item\<close> fails with that 404
  and the store is unchanged.
\<close>

theorem delete_item_spec:
  assumes "dict_wf db"
  shows "(dict_contains db k \<longrightarrow>
            delete_item db k = (Inr (), filter (\<lambda>p. fst p \<noteq> k) db)
            \<and> Suc (length (snd (delete_item db k))) = length db
            \<and> (\<forall>k'. dict_get (snd (delete_item db k)) k' =
                      (if k' = k then None else dict_get db k'))
            \<and> get_item (snd (delete_item db k)) k =
                 (Inl (not_found k), snd (delete_item db k)))
         \<and> (\<not> dict_contains db k \<longrightarrow> delete_item db k = (Inl (not_found k), db))"
proof -
  have absent: "delete_item db k = (Inl (not_found k), db)" if "\<not> dict_contains db k"
    using that by (simp add: delete_item_def)
  have present: "delete_item db k = (Inr (), filter (\<lambda>p. fst p \<noteq> k) db)
            \<and> Suc (length (snd (delete_item db k))) = length db
            \<and> (\<forall>k'. dict_get (snd (delete_item db k)) k' =
                      (if k' = k then None else dict_get db k'))
            \<and> get_item (snd (delete_item db k)) k =
                 (Inl (not_found k), snd (delete_item db k))"
    if c: "dict_contains db k"
  proof -
    have del: "delete_item db k = (Inr (), dict_delitem db k)"
      using c by (simp add: delete_item_def)
    have gone: "dict_get (dict_delitem db k) k = None"
      by (simp add: dict_get_delitem [OF assms])
    show ?thesis
      by (simp add: del dict_delitem_filter [OF assms, symmetric] length_delitem [OF c]
          dict_get_delitem [OF assms] get_item_def gone)
  qed
  from absent present show ?thesis by blast
qed

theorem delete_item_spec_witness:
  "dict_wf [(0x40008000000000000001 :: uuid,
        \<lparr>id' = 0x40008000000000000001, text = ''a'', is_done = False\<rparr>),
       (0x40008000000000000002,
        \<lparr>id' = 0x40008000000000000002, text = ''b'', is_done = True\<rparr>)]
   \<and> dict_contains [(0x40008000000000000001 :: uuid,
        \<lparr>id' = 0x40008000000000000001, text = ''a'', is_done = False\<rparr>),
       (0x40008000000000000002,
        \<lparr>id' = 0x40008000000000000002, text = ''b'', is_done = True\<rparr>)]
       0x40008000000000000001
   \<and> delete_item [(0x40008000000000000001 :: uuid,
        \<lparr>id' = 0x40008000000000000001, text = ''a'', is_done = False\<rparr>),
       (0x40008000000000000002,
        \<lparr>id' = 0x40008000000000000002, text = ''b'', is_done = True\<rparr>)]
       0x40008000000000000001
     = (Inr (), [(0x40008000000000000002,
        \<lparr>id' = 0x40008000000000000002, text = ''b'', is_done = True\<rparr>)])
   \<and> dict_wf ([] :: store) \<and> \<not> dict_contains [] (0x40008000000000000001 :: uuid)
   \<and> delete_item [] 0x40008000000000000001 = (Inl (not_found 0x40008000000000000001), [])"
  using delete_item_spec [of "[(0x40008000000000000001 :: uuid,
        \<lparr>id' = 0x40008000000000000001, text = ''a'', is_done = False\<rparr>),
       (0x40008000000000000002,
        \<lparr>id' = 0x40008000000000000002, text = ''b'', is_done = True\<rparr>)]"
      "0x40008000000000000001"]
    delete_item_spec [of "[]" "0x40008000000000000001"]
  by (simp add: dict_wf_def dict_contains_def)

subsection \<open>C7: a failed call changes nothing\<close>

text \<open>
  C7: whenever \<open>create_item\<close>, \<open>get_item\<close>, \<open>update_item\<close> or \<open>delete_item\<close>, called
  through its route, fails, the store after the call is the store before it. Creating
  or updating with the empty text fails with the validation error, and the number of
  stored items is the same after the failed creation.
\<close>

theorem failed_call_keeps_store:
  "(isl (fst (POST_items db u t d)) \<longrightarrow> snd (POST_items db u t d) = db)
   \<and> (isl (fst (get_item db k)) \<longrightarrow> snd (get_item db k) = db)
   \<and> (isl (fst (PUT_items db k t d)) \<longrightarrow> snd (PUT_items db k t d) = db)
   \<and> (isl (fst (delete_item db k)) \<longrightarrow> snd (delete_item db k) = db)
   \<and> POST_items db u [] d = (Inl ValidationError, db)
   \<and> length (snd (POST_items db u [] d)) = length db
   \<and> PUT_items db k [] d = (Inl ValidationError, db)"
proof -
  have "snd (POST_items db u t d) = db" if "isl (fst (POST_items db u t d))"
    using that by (cases "t = []") (simp_all add: POST_items_def ItemCreate_init_def create_item_def Let_def)
  moreover have "snd (get_item db k) = db"
    by (simp add: get_item_def split: option.splits)
  moreover have "snd (PUT_items db k t d) = db" if "isl (fst (PUT_items db k t d))"
    using that
    by (cases "t = []")
       (simp_all add: PUT_items_def ItemCreate_init_def update_item_def Let_def
          split: option.splits)
  moreover have "snd (delete_item db k) = db" if "isl (fst (delete_item db k))"
    using that by (simp add: delete_item_def split: if_splits)
  moreover have "POST_items db u [] d = (Inl ValidationError, db)"
    by (simp add: POST_items_def ItemCreate_init_empty)
  moreover have "PUT_items db k [] d = (Inl ValidationError, db)"
    by (simp add: PUT_items_def ItemCreate_init_empty)
  ultimately show ?thesis by simp
qed

theorem failed_call_keeps_store_witness:
  "isl (fst (POST_items [(0x40008000000000000001 :: uuid,
        \<lparr>id' = 0x40008000000000000001, text = ''a'', is_done = False\<rparr>)] 0x40008000000000000002 [] False))
   \<and> snd (POST_items [(0x40008000000000000001 :: uuid,
        \<lparr>id' = 0x40008000000000000001, text = ''a'', is_done = False\<rparr>)] 0x40008000000000000002 [] False) = [(0x40008000000000000001 :: uuid,
        \<lparr>id' = 0x40008000000000000001, text = ''a'', is_done = False\<rparr>)]
   \<and> isl (fst (get_item [(0x40008000000000000001 :: uuid,
        \<lparr>id' = 0x40008000000000000001, text = ''a'', is_done = False\<rparr>)] 0x40008000000000000002))
   \<and> snd (get_item [(0x40008000000000000001 :: uuid,
        \<lparr>id' = 0x40008000000000000001, text = ''a'', is_done = False\<rparr>)] 0x40008000000000000002) = [(0x40008000000000000001 :: uuid,
        \<lparr>id' = 0x40008000000000000001, text = ''a'', is_done = False\<rparr>)]
   \<and> isl (fst (PUT_items [(0x40008000000000000001 :: uuid,
        \<lparr>id' = 0x40008000000000000001, text = ''a'', is_done = False\<rparr>)] 0x40008000000000000002 ''b'' True))
   \<and> snd (PUT_items [(0x40008000000000000001 :: uuid,
        \<lparr>id' = 0x40008000000000000001, text = ''a'', is_done = False\<rparr>)] 0x40008000000000000002 ''b'' True) = [(0x40008000000000000001 :: uuid,
        \<lparr>id' = 0x40008000000000000001, text = ''a'', is_done = False\<rparr>)]
   \<and> isl (fst (delete_item [(0x40008000000000000001 :: uuid,
        \<lparr>id' = 0x40008000000000000001, text = ''a'', is_done = False\<rparr>)] 0x40008000000000000002))
   \<and> snd (delete_item [(0x40008000000000000001 :: uuid,
        \<lparr>id' = 0x40008000000000000001, text = ''a'', is_done = False\<rparr>)] 0x40008000000000000002) = [(0x40008000000000000001 :: uuid,
        \<lparr>id' = 0x40008000000000000001, text = ''a'', is_done = False\<rparr>)]"
  using failed_call_keeps_store [of "[(0x40008000000000000001 :: uuid,
        \<lparr>id' = 0x40008000000000000001, text = ''a'', is_done = False\<rparr>)]" "0x40008000000000000002" "[]" False "0x40008000000000000002"]
    failed_call_keeps_store [of "[(0x40008000000000000001 :: uuid,
        \<lparr>id' = 0x40008000000000000001, text = ''a'', is_done = False\<rparr>)]" "0x40008000000000000002" "''b''" True "0x40008000000000000002"]
  by (simp add: POST_items_def PUT_items_def ItemCreate_init_def get_item_def update_item_def
      delete_item_def dict_contains_def)

subsection \<open>C8: what an update leaves alone\<close>

text \<open>
  C8: when \<open>update_item\<close> succeeds on an identifier, the entry under every other
  identifier is what it was, and the store has the same keys, in the same order, as
  before; the identifier was a key of the store.
\<close>

theorem update_item_frame:
  assumes "fst (PUT_items db k t d) = Inr item"
  shows "(\<forall>k'. k' \<noteq> k \<longrightarrow> dict_get (snd (PUT_items db k t d)) k' = dict_get db k')
         \<and> dict_keys (snd (PUT_items db k t d)) = dict_keys db
         \<and> length (snd (PUT_items db k t d)) = length db
         \<and> dict_contains db k"
proof -
  from assms have t: "t \<noteq> []"
    by (auto simp: PUT_items_def ItemCreate_init_def)
  from assms t obtain old where old: "dict_get db k = Some old"
    by (cases "dict_get db k") (simp_all add: PUT_items_def ItemCreate_init_ok update_item_def)
  have c: "dict_contains db k" using old by (rule dict_get_Some_contains)
  show ?thesis
    by (simp add: PUT_items_ok [OF t old] dict_get_setitem dict_keys_def dict_keys_setitem c
        length_setitem_present)
qed

theorem update_item_frame_witness:
  "fst (PUT_items [(0x40008000000000000001 :: uuid,
        \<lparr>id' = 0x40008000000000000001, text = ''a'', is_done = False\<rparr>),
       (0x40008000000000000002,
        \<lparr>id' = 0x40008000000000000002, text = ''b'', is_done = True\<rparr>)] 0x40008000000000000001 ''z'' True)
     = Inr \<lparr>id' = 0x40008000000000000001, text = ''z'', is_done = True\<rparr>
   \<and> dict_get (snd (PUT_items [(0x40008000000000000001 :: uuid,
        \<lparr>id' = 0x40008000000000000001, text = ''a'', is_done = False\<rparr>),
       (0x40008000000000000002,
        \<lparr>id' = 0x40008000000000000002, text = ''b'', is_done = True\<rparr>)] 0x40008000000000000001 ''z'' True)) 0x40008000000000000002
     = dict_get [(0x40008000000000000001 :: uuid,
        \<lparr>id' = 0x40008000000000000001, text = ''a'', is_done = False\<rparr>),
       (0x40008000000000000002,
        \<lparr>id' = 0x40008000000000000002, text = ''b'', is_done = True\<rparr>)] 0x40008000000000000002
   \<and> dict_keys (snd (PUT_items [(0x40008000000000000001 :: uuid,
        \<lparr>id' = 0x40008000000000000001, text = ''a'', is_done = False\<rparr>),
       (0x40008000000000000002,
        \<lparr>id' = 0x40008000000000000002, text = ''b'', is_done = True\<rparr>)] 0x40008000000000000001 ''z'' True))
     = dict_keys [(0x40008000000000000001 :: uuid,
        \<lparr>id' = 0x40008000000000000001, text = ''a'', is_done = False\<rparr>),
       (0x40008000000000000002,
        \<lparr>id' = 0x40008000000000000002, text = ''b'', is_done = True\<rparr>)]"
  using update_item_frame [of "[(0x40008000000000000001 :: uuid,
        \<lparr>id' = 0x40008000000000000001, text = ''a'', is_done = False\<rparr>),
       (0x40008000000000000002,
        \<lparr>id' = 0x40008000000000000002, text = ''b'', is_done = True\<rparr>)]" "0x40008000000000000001" "''z''" True
      "\<lparr>id' = 0x40008000000000000001, text = ''z'', is_done = True\<rparr>"]
  by (simp add: PUT_items_def ItemCreate_init_def update_item_def Let_def dict_keys_def)

subsection \<open>C9: two pages of fifteen items\<close>

text \<open>
  C9 as the specification states it: after fifteen calls of \<open>create_item\<close> on the empty
  store, the first page holds the first ten items created and the second page the other
  five. The fifteen identifiers are fifteen draws of \<open>uuid.uuid4()\<close>, which the handler
  does not compare with the keys of the store. Below, the second draw repeats the first:
  the second creation replaces the first item, the store holds fourteen items, the
  second page has four of them, and the first page starts with the second item created.
\<close>

theorem pagination_with_repeated_draw:
  "fst (list_items
     (snd (run [] [Create 0x40008000000000000001 ''t1'' False,
                  Create 0x40008000000000000001 ''t2'' False,
                  Create 0x40008000000000000002 ''t3'' False,
                  Create 0x40008000000000000003 ''t4'' False,
                  Create 0x40008000000000000004 ''t5'' False,
                  Create 0x40008000000000000005 ''t6'' False,
                  Create 0x40008000000000000006 ''t7'' False,
                  Create 0x40008000000000000007 ''t8'' False,
                  Create 0x40008000000000000008 ''t9'' False,
                  Create 0x40008000000000000009 ''t10'' False,
                  Create 0x4000800000000000000a ''t11'' False,
                  Create 0x4000800000000000000b ''t12'' False,
                  Create 0x4000800000000000000c ''t13'' False,
                  Create 0x4000800000000000000d ''t14'' False,
                  Create 0x4000800000000000000e ''t15'' False]))
     10 10) =
   Inr [\<lparr>id' = 0x4000800000000000000b, text = ''t12'', is_done = False\<rparr>,
          \<lparr>id' = 0x4000800000000000000c, text = ''t13'', is_done = False\<rparr>,
          \<lparr>id' = 0x4000800000000000000d, text = ''t14'', is_done = False\<rparr>,
          \<lparr>id' = 0x4000800000000000000e, text = ''t15'', is_done = False\<rparr>]"
  by (simp add: POST_items_def ItemCreate_init_def create_item_def Let_def list_items_def
      dict_values_def py_slice_def slice_bound_def)

text \<open>
  C9, amended: when the fifteen identifiers drawn are pairwise distinct (and the texts
  non-empty), every creation returns its item, \<open>list_items(skip=0, limit=10)\<close> returns
  the first ten items created, in creation order, and \<open>list_items(skip=10, limit=10)\<close>
  returns the remaining five, in creation order.
\<close>

theorem pagination_after_15_creations:
  assumes "length cs = 15" and "distinct (map fst cs)" and "\<forall>c \<in> set cs. fst (snd c) \<noteq> []"
  shows "fst (run [] (map (\<lambda>(u, t, d). Create u t d) cs)) =
           map (\<lambda>(u, t, d). Inr (Item \<lparr>id' = u, text = t, is_done = d\<rparr>)) cs
         \<and> fst (list_items (snd (run [] (map (\<lambda>(u, t, d). Create u t d) cs))) 0 10) =
             Inr (take 10 (map (\<lambda>(u, t, d). \<lparr>id' = u, text = t, is_done = d\<rparr>) cs))
         \<and> fst (list_items (snd (run [] (map (\<lambda>(u, t, d). Create u t d) cs))) 10 10) =
             Inr (drop 10 (map (\<lambda>(u, t, d). \<lparr>id' = u, text = t, is_done = d\<rparr>) cs))
         \<and> length (take 10 (map (\<lambda>(u, t, d). \<lparr>id' = u, text = t, is_done = d\<rparr>) cs)) = 10
         \<and> length (drop 10 (map (\<lambda>(u, t, d). \<lparr>id' = u, text = t, is_done = d\<rparr>) cs)) = 5"
proof -
  let ?items = "map (\<lambda>(u, t, d). \<lparr>id' = u, text = t, is_done = d\<rparr>) cs"
  have "\<forall>c \<in> set cs. \<not> dict_contains [] (fst c) \<and> fst (snd c) \<noteq> []"
    using assms(3) by (simp add: dict_contains_def)
  from run_creates [OF assms(2) this]
  have r: "run [] (map (\<lambda>(u, t, d). Create u t d) cs) =
             (map (\<lambda>(u, t, d). Inr (Item \<lparr>id' = u, text = t, is_done = d\<rparr>)) cs,
              map (\<lambda>(u, t, d). (u, \<lparr>id' = u, text = t, is_done = d\<rparr>)) cs)"
    by simp
  have v: "dict_values (map (\<lambda>(u, t, d). (u, \<lparr>id' = u, text = t, is_done = d\<rparr>)) cs) = ?items"
    by (simp add: dict_values_def split_beta)
  have len: "length ?items = 15" using assms(1) by simp
  have p1: "py_slice ?items 0 10 = take 10 ?items"
    using py_slice_nonneg [of 0 10 ?items] by simp
  have p2: "py_slice ?items 10 20 = drop 10 ?items"
    using py_slice_nonneg [of 10 10 ?items] len by simp
  show ?thesis
    using len by (simp add: r list_items_def Let_def v p1 p2)
qed

theorem pagination_after_15_creations_witness:
  "(let cs = [(0x40008000000000000001 :: uuid, ''t1'', False),
              (0x40008000000000000002, ''t2'', False),
              (0x40008000000000000003, ''t3'', False),
              (0x40008000000000000004, ''t4'', False),
              (0x40008000000000000005, ''t5'', False),
              (0x40008000000000000006, ''t6'', False),
              (0x40008000000000000007, ''t7'', False),
              (0x40008000000000000008, ''t8'', False),
              (0x40008000000000000009, ''t9'', False),
              (0x4000800000000000000a, ''t10'', False),
              (0x4000800000000000000b, ''t11'', False),
              (0x4000800000000000000c, ''t12'', False),
              (0x4000800000000000000d, ''t13'', False),
              (0x4000800000000000000e, ''t14'', False),
              (0x4000800000000000000f, ''t15'', False)]
    in length cs = 15 \<and> distinct (map fst cs) \<and> (\<forall>c \<in> set cs. fst (snd c) \<noteq> [])
       \<and> fst (list_items (snd (run [] (map (\<lambda>(u, t, d). Create u t d) cs))) 10 10) =
           Inr [\<lparr>id' = 0x4000800000000000000b, text = ''t11'', is_done = False\<rparr>,
                 \<lparr>id' = 0x4000800000000000000c, text = ''t12'', is_done = False\<rparr>,
                 \<lparr>id' = 0x4000800000000000000d, text = ''t13'', is_done = False\<rparr>,
                 \<lparr>id' = 0x4000800000000000000e, text = ''t14'', is_done = False\<rparr>,
                 \<lparr>id' = 0x4000800000000000000f, text = ''t15'', is_done = False\<rparr>])"
  using pagination_after_15_creations [of
      "[(0x40008000000000000001 :: uuid, ''t1'', False),
       (0x40008000000000000002, ''t2'', False),
       (0x40008000000000000003, ''t3'', False),
       (0x40008000000000000004, ''t4'', False),
       (0x40008000000000000005, ''t5'', False),
       (0x40008000000000000006, ''t6'', False),
       (0x40008000000000000007, ''t7'', False),
       (0x40008000000000000008, ''t8'', False),
       (0x40008000000000000009, ''t9'', False),
       (0x4000800000000000000a, ''t10'', False),
       (0x4000800000000000000b, ''t11'', False),
       (0x4000800000000000000c, ''t12'', False),
       (0x4000800000000000000d, ''t13'', False),
       (0x4000800000000000000e, ''t14'', False),
       (0x4000800000000000000f, ''t15'', False)]"]
  by (simp add: Let_def)

subsection \<open>C10: a negative skip\<close>

text \<open>
  C10 as the specification states it: with at least one item stored,
  \<open>list_items(skip=-1, limit=10)\<close> returns the most recently inserted item. The slice is
  \<open>all_items[-1:9]\<close>: with ten items stored it starts at index 9 and stops at index 9,
  and the result is empty.
\<close>

theorem list_items_negative_skip_ten_items:
  "fst (list_items
     (snd (run [] [Create 0x40008000000000000001 ''t1'' False,
                  Create 0x40008000000000000002 ''t2'' False,
                  Create 0x40008000000000000003 ''t3'' False,
                  Create 0x40008000000000000004 ''t4'' False,
                  Create 0x40008000000000000005 ''t5'' False,
                  Create 0x40008000000000000006 ''t6'' False,
                  Create 0x40008000000000000007 ''t7'' False,
                  Create 0x40008000000000000008 ''t8'' False,
                  Create 0x40008000000000000009 ''t9'' False,
                  Create 0x4000800000000000000a ''t10'' False]))
     (- 1) 10) = Inr []
   \<and> length
     (snd (run [] [Create 0x40008000000000000001 ''t1'' False,
                  Create 0x40008000000000000002 ''t2'' False,
                  Create 0x40008000000000000003 ''t3'' False,
                  Create 0x40008000000000000004 ''t4'' False,
                  Create 0x40008000000000000005 ''t5'' False,
                  Create 0x40008000000000000006 ''t6'' False,
                  Create 0x40008000000000000007 ''t7'' False,
                  Create 0x40008000000000000008 ''t8'' False,
                  Create 0x40008000000000000009 ''t9'' False,
                  Create 0x4000800000000000000a ''t10'' False])) = 10"
  by (simp add: POST_items_def ItemCreate_init_def create_item_def Let_def list_items_def
      dict_values_def py_slice_def slice_bound_def)

text \<open>
  C10, amended: \<open>list_items\<close> checks neither \<open>skip\<close> nor \<open>limit\<close> and never fails; with
  a negative \<open>skip\<close> the slice counts from the end of the insertion-ordered sequence.
  With between one and nine items stored, \<open>list_items(skip=-1, limit=10)\<close> returns the
  single most recently inserted item; with ten or more items stored it returns the
  empty sequence.
\<close>

theorem list_items_negative_skip:
  "(\<exists>items. list_items db skip limit = (Inr items, db))
   \<and> (db \<noteq> [] \<and> length db \<le> 9 \<longrightarrow>
        list_items db (- 1) 10 = (Inr [snd (last db)], db))
   \<and> (10 \<le> length db \<longrightarrow> list_items db (- 1) 10 = (Inr [], db))"
proof -
  have "list_items db (- 1) 10 = (Inr [snd (last db)], db)"
    if "db \<noteq> []" and "length db \<le> 9"
    using that py_slice_last [of "dict_values db"]
    by (simp add: list_items_def Let_def dict_values_def last_map)
  moreover have "list_items db (- 1) 10 = (Inr [], db)" if "10 \<le> length db"
    using that py_slice_last_empty [of "dict_values db"]
    by (simp add: list_items_def Let_def dict_values_def)
  ultimately show ?thesis
    by (simp add: list_items_def Let_def)
qed

theorem list_items_negative_skip_witness:
  "(let db2 = [(0x40008000000000000001 :: uuid, \<lparr>id' = 0x40008000000000000001, text = ''t1'', is_done = False\<rparr>),
               (0x40008000000000000002, \<lparr>id' = 0x40008000000000000002, text = ''t2'', is_done = False\<rparr>)];
        db10 = [(0x40008000000000000001 :: uuid, \<lparr>id' = 0x40008000000000000001, text = ''t1'', is_done = False\<rparr>),
                (0x40008000000000000002, \<lparr>id' = 0x40008000000000000002, text = ''t2'', is_done = False\<rparr>),
                (0x40008000000000000003, \<lparr>id' = 0x40008000000000000003, text = ''t3'', is_done = False\<rparr>),
                (0x40008000000000000004, \<lparr>id' = 0x40008000000000000004, text = ''t4'', is_done = False\<rparr>),
                (0x40008000000000000005, \<lparr>id' = 0x40008000000000000005, text = ''t5'', is_done = False\<rparr>),
                (0x40008000000000000006, \<lparr>id' = 0x40008000000000000006, text = ''t6'', is_done = False\<rparr>),
                (0x40008000000000000007, \<lparr>id' = 0x40008000000000000007, text = ''t7'', is_done = False\<rparr>),
                (0x40008000000000000008, \<lparr>id' = 0x40008000000000000008, text = ''t8'', is_done = False\<rparr>),
                (0x40008000000000000009, \<lparr>id' = 0x40008000000000000009, text = ''t9'', is_done = False\<rparr>),
                (0x4000800000000000000a, \<lparr>id' = 0x4000800000000000000a, text = ''t10'', is_done = False\<rparr>)]
    in db2 \<noteq> [] \<and> length db2 \<le> 9
       \<and> list_items db2 (- 1) 10 =
           (Inr [\<lparr>id' = 0x40008000000000000002, text = ''t2'', is_done = False\<rparr>], db2)
       \<and> 10 \<le> length db10
       \<and> list_items db10 (- 1) 10 = (Inr [], db10))"
  using list_items_negative_skip [of
      "[(0x40008000000000000001 :: uuid, \<lparr>id' = 0x40008000000000000001, text = ''t1'', is_done = False\<rparr>),
       (0x40008000000000000002, \<lparr>id' = 0x40008000000000000002, text = ''t2'', is_done = False\<rparr>)]" 0 0]
    list_items_negative_skip [of
      "[(0x40008000000000000001 :: uuid, \<lparr>id' = 0x40008000000000000001, text = ''t1'', is_done = False\<rparr>),
       (0x40008000000000000002, \<lparr>id' = 0x40008000000000000002, text = ''t2'', is_done = False\<rparr>),
       (0x40008000000000000003, \<lparr>id' = 0x40008000000000000003, text = ''t3'', is_done = False\<rparr>),
       (0x40008000000000000004, \<lparr>id' = 0x40008000000000000004, text = ''t4'', is_done = False\<rparr>),
       (0x40008000000000000005, \<lparr>id' = 0x40008000000000000005, text = ''t5'', is_done = False\<rparr>),
       (0x40008000000000000006, \<lparr>id' = 0x40008000000000000006, text = ''t6'', is_done = False\<rparr>),
       (0x40008000000000000007, \<lparr>id' = 0x40008000000000000007, text = ''t7'', is_done = False\<rparr>),
       (0x40008000000000000008, \<lparr>id' = 0x40008000000000000008, text = ''t8'', is_done = False\<rparr>),
       (0x40008000000000000009, \<lparr>id' = 0x40008000000000000009, text = ''t9'', is_done = False\<rparr>),
       (0x4000800000000000000a, \<lparr>id' = 0x4000800000000000000a, text = ''t10'', is_done = False\<rparr>)]" 0 0]
  by (simp add: Let_def)

end
